theory Spec2Isabelle
  imports Main
begin

section \<open>Python values and exceptions\<close>

text \<open>
  The module \<^verbatim>\<open>snorkel/models/context.py\<close> is Python 2. Integers are unbounded
  (\<open>int\<close>), strings are byte strings (\<open>string\<close>), and every exception the modelled code
  can raise is a constructor of \<open>error\<close>; a function that may raise returns
  \<open>error + 'a\<close> with \<open>Inl\<close> for the exception.
\<close>

datatype error =
    ValueError string
  | AttributeError string
  | TypeError string
  | NotImplementedError
  | DBAPIError string

subsection \<open>\<^verbatim>\<open>str.find\<close> and \<^verbatim>\<open>str.split\<close> with a separator\<close>

text \<open>
  \<open>str_find sep s\<close> is \<^verbatim>\<open>s.find(sep)\<close>: the lowest index at which \<open>sep\<close> occurs in
  \<open>s\<close>, \<open>None\<close> for Python's \<open>-1\<close>.
\<close>

fun str_find :: "string \<Rightarrow> string \<Rightarrow> nat option" where
  "str_find sep [] = (if sep = [] then Some 0 else None)"
| "str_find sep (c # cs) =
     (if take (length sep) (c # cs) = sep then Some 0
      else map_option Suc (str_find sep cs))"

lemma str_find_bound: "str_find sep s = Some i \<Longrightarrow> i + length sep \<le> length s"
proof (induction s arbitrary: i)
  case Nil
  then show ?case by (simp split: if_splits)
next
  case (Cons c cs)
  show ?case
  proof (cases "take (length sep) (c # cs) = sep")
    case True
    then have "length (take (length sep) (c # cs)) = length sep"
      by simp
    then have "length sep \<le> length (c # cs)"
      by (simp add: min_def split: if_splits)
    with True Cons.prems show ?thesis by simp
  next
    case False
    with Cons.prems obtain j where "str_find sep cs = Some j" "i = Suc j"
      by auto
    with Cons.IH show ?thesis by fastforce
  qed
qed

text \<open>
  \<open>str_split sep s\<close> is \<^verbatim>\<open>s.split(sep)\<close>: cut at the leftmost occurrence of the
  separator and go on behind it. Python raises \<^verbatim>\<open>ValueError\<close> on the empty separator;
  the module only passes the literals \<^verbatim>\<open>'::'\<close> and \<^verbatim>\<open>':'\<close>, and the definition
  returns \<open>[s]\<close> for the empty one.
\<close>

function str_split :: "string \<Rightarrow> string \<Rightarrow> string list" where
  "str_split sep s =
     (if sep = [] then [s]
      else case str_find sep s of
             None \<Rightarrow> [s]
           | Some i \<Rightarrow> take i s # str_split sep (drop (i + length sep) s))"
  by pat_completeness auto
termination
proof (relation "measure (\<lambda>(sep, s). length s)")
  show "wf (measure (\<lambda>(sep, s). length s))" by simp
next
  fix sep s :: string and i :: nat
  assume ne: "sep \<noteq> []" and found: "str_find sep s = Some i"
  from found have "i + length sep \<le> length s"
    by (rule str_find_bound)
  moreover from ne have "1 \<le> length sep"
    by (cases sep) simp_all
  ultimately have "length s - (i + length sep) < length s"
    by linarith
  then show "((sep, drop (i + length sep) s), (sep, s)) \<in> measure (\<lambda>(sep, s). length s)"
    by simp
qed

declare str_split.simps [simp del]

subsection \<open>\<^verbatim>\<open>int(s)\<close> and \<^verbatim>\<open>str(n)\<close>\<close>

text \<open>
  The builtin \<^verbatim>\<open>int\<close> of Python 2 applied to a string, base 10: whitespace around the
  literal is ignored, one sign is allowed, whitespace between the sign and the digits is
  skipped, and at least one decimal digit must follow. \<open>None\<close> stands for the
  \<^verbatim>\<open>ValueError\<close> of an invalid literal.
\<close>

definition is_space :: "char \<Rightarrow> bool" where
  "is_space c = (c \<in> set [CHR '' '', CHR 0x09, CHR 0x0A, CHR 0x0B, CHR 0x0C, CHR 0x0D])"

definition is_digit :: "char \<Rightarrow> bool" where
  "is_digit c = (48 \<le> (of_char c :: nat) \<and> (of_char c :: nat) \<le> 57)"

definition digit_val :: "char \<Rightarrow> nat" where
  "digit_val c = of_char c - 48"

definition digits_val :: "string \<Rightarrow> nat" where
  "digits_val ds = foldl (\<lambda>a c. 10 * a + digit_val c) 0 ds"

definition str_strip :: "string \<Rightarrow> string" where
  "str_strip s = rev (dropWhile is_space (rev (dropWhile is_space s)))"

definition digits_int :: "string \<Rightarrow> int option" where
  "digits_int ds = (if ds \<noteq> [] \<and> list_all is_digit ds then Some (int (digits_val ds)) else None)"

definition py_int :: "string \<Rightarrow> int option" where
  "py_int s =
     (case str_strip s of
        [] \<Rightarrow> None
      | c # r \<Rightarrow>
          if c = CHR ''-'' then map_option uminus (digits_int (dropWhile is_space r))
          else if c = CHR ''+'' then digits_int (dropWhile is_space r)
          else digits_int (c # r))"

text \<open>\<^verbatim>\<open>str(n)\<close>, which is also what \<^verbatim>\<open>"%s" % n\<close> prints for an integer.\<close>

definition digit_char :: "nat \<Rightarrow> char" where
  "digit_char d = char_of (48 + d)"

fun str_nat :: "nat \<Rightarrow> string" where
  "str_nat n = (if n < 10 then [digit_char n] else str_nat (n div 10) @ [digit_char (n mod 10)])"

declare str_nat.simps [simp del]

definition py_str :: "int \<Rightarrow> string" where
  "py_str n = (if n < 0 then CHR ''-'' # str_nat (nat (- n)) else str_nat (nat n))"

section \<open>The stable-id codec\<close>

text \<open>
  A parent \<^verbatim>\<open>Context\<close> as the span code reads it: the columns of \<^verbatim>\<open>Context\<close> and the
  per-token columns that \<^verbatim>\<open>Sentence\<close> and \<^verbatim>\<open>Phrase\<close> share. Nullable columns are
  options; \<open>extra\<close> holds the attributes of one kind only (\<^verbatim>\<open>position\<close>,
  \<^verbatim>\<open>document\<close>, \<^verbatim>\<open>row_num\<close>, ...).
\<close>

type_synonym ref = nat

datatype pyval = PNone | PInt int | PStr string | PRef ref | PList "pyval list"

record Context =
  id_col :: "int option"
  type_col :: string
  stable_id :: string
  text_col :: string
  words :: "string list"
  char_offsets :: "int list"
  lemmas_col :: "string list option"
  poses :: "string list option"
  dep_parents :: "int list option"
  dep_labels :: "string list option"
  extra :: "string \<Rightarrow> pyval option"

definition split_stable_id :: "string \<Rightarrow> error + (string \<times> string \<times> int \<times> int)" where
  "split_stable_id sid =
     (let split1 = str_split ''::'' sid in
      if length split1 = 2 then
        (let split2 = str_split '':'' (split1 ! 1) in
         if length split2 = 3 then
           (case py_int (split2 ! 1) of
              None \<Rightarrow> Inl (ValueError ''invalid literal for int() with base 10'')
            | Some a \<Rightarrow>
                (case py_int (split2 ! 2) of
                   None \<Rightarrow> Inl (ValueError ''invalid literal for int() with base 10'')
                 | Some b \<Rightarrow> Inr (split1 ! 0, split2 ! 0, a, b)))
         else Inl (ValueError ''Malformed stable_id:''))
      else Inl (ValueError ''Malformed stable_id:''))"

definition construct_stable_id :: "Context \<Rightarrow> string \<Rightarrow> int \<Rightarrow> int \<Rightarrow> error + string" where
  "construct_stable_id parent_context polymorphic_type relative_char_offset_start
       relative_char_offset_end =
     (case split_stable_id (stable_id parent_context) of
        Inl e \<Rightarrow> Inl e
      | Inr (parent_id, _, parent_char_start, _) \<Rightarrow>
          (let start = parent_char_start + relative_char_offset_start;
               end = parent_char_start + relative_char_offset_end
           in Inr (parent_id @ ''::'' @ polymorphic_type @ '':'' @ py_str start
                     @ '':'' @ py_str end)))"

section \<open>TemporarySpan\<close>

text \<open>
  A span refers to its parent \<^verbatim>\<open>Context\<close> object; the objects live in a heap and are
  compared by identity, as \<^verbatim>\<open>Context\<close> defines no \<^verbatim>\<open>__eq__\<close>. \<open>cls\<close> is the class of
  the instance: \<^verbatim>\<open>Span\<close> inherits the methods below from \<^verbatim>\<open>TemporarySpan\<close> and overrides
  \<^verbatim>\<open>_get_instance\<close>, \<^verbatim>\<open>__eq__\<close>, \<^verbatim>\<open>__ne__\<close> and \<^verbatim>\<open>__hash__\<close>.
\<close>

type_synonym heap = "ref \<Rightarrow> Context"

datatype span_class = TemporarySpan_cls | Span_cls

record TemporarySpan =
  cls :: span_class
  id_attr :: "int option"
  parent :: ref
  char_start :: int
  char_end :: int
  meta :: pyval

definition TemporarySpan_init :: "ref \<Rightarrow> int \<Rightarrow> int \<Rightarrow> pyval \<Rightarrow> TemporarySpan" where
  "TemporarySpan_init p cs ce m =
     \<lparr>cls = TemporarySpan_cls, id_attr = None, parent = p, char_start = cs, char_end = ce,
      meta = m\<rparr>"

text \<open>
  \<^verbatim>\<open>Span(**kwargs)\<close> is the declarative constructor: it sets the attributes it is given,
  and a column that was not given reads as \<^verbatim>\<open>None\<close>.
\<close>

definition Span_init :: "ref \<Rightarrow> int \<Rightarrow> int \<Rightarrow> TemporarySpan" where
  "Span_init p cs ce =
     \<lparr>cls = Span_cls, id_attr = None, parent = p, char_start = cs, char_end = ce,
      meta = PNone\<rparr>"

definition get_instance :: "TemporarySpan \<Rightarrow> int \<Rightarrow> int \<Rightarrow> ref \<Rightarrow> TemporarySpan" where
  "get_instance self cs ce p =
     (case cls self of
        TemporarySpan_cls \<Rightarrow> TemporarySpan_init p cs ce PNone
      | Span_cls \<Rightarrow> Span_init p cs ce)"

definition TemporarySpan_len :: "TemporarySpan \<Rightarrow> int" where
  "TemporarySpan_len self = char_end self - char_start self + 1"

subsection \<open>Equality and hash\<close>

text \<open>
  The right operand of \<^verbatim>\<open>==\<close> is any object: a partial map from attribute names to
  values. Reading an attribute the object lacks raises \<^verbatim>\<open>AttributeError\<close>.
\<close>

type_synonym pyobj = "string \<Rightarrow> pyval option"

definition getattr :: "pyobj \<Rightarrow> string \<Rightarrow> error + pyval" where
  "getattr ob name = (case ob name of None \<Rightarrow> Inl (AttributeError name) | Some v \<Rightarrow> Inr v)"

definition attrs_of :: "TemporarySpan \<Rightarrow> pyobj" where
  "attrs_of s name =
     (if name = ''parent'' then Some (PRef (parent s))
      else if name = ''char_start'' then Some (PInt (char_start s))
      else if name = ''char_end'' then Some (PInt (char_end s))
      else if name = ''id'' then Some (case id_attr s of None \<Rightarrow> PNone | Some i \<Rightarrow> PInt i)
      else if name = ''meta'' then Some (meta s)
      else None)"

text \<open>The expression inside \<^verbatim>\<open>try\<close>; \<^verbatim>\<open>and\<close> and \<^verbatim>\<open>or\<close> evaluate left to right and stop early.\<close>

definition eq_body :: "TemporarySpan \<Rightarrow> pyobj \<Rightarrow> error + bool" where
  "eq_body self other =
     (case getattr other ''parent'' of
        Inl e \<Rightarrow> Inl e
      | Inr p \<Rightarrow>
          if PRef (parent self) \<noteq> p then Inr False
          else (case getattr other ''char_start'' of
                  Inl e \<Rightarrow> Inl e
                | Inr cs \<Rightarrow>
                    if PInt (char_start self) \<noteq> cs then Inr False
                    else (case getattr other ''char_end'' of
                            Inl e \<Rightarrow> Inl e
                          | Inr ce \<Rightarrow> Inr (PInt (char_end self) = ce))))"

definition TemporarySpan_eq :: "TemporarySpan \<Rightarrow> pyobj \<Rightarrow> error + bool" where
  "TemporarySpan_eq self other =
     (case eq_body self other of
        Inl (AttributeError _) \<Rightarrow> Inr False
      | r \<Rightarrow> r)"

definition ne_body :: "TemporarySpan \<Rightarrow> pyobj \<Rightarrow> error + bool" where
  "ne_body self other =
     (case getattr other ''parent'' of
        Inl e \<Rightarrow> Inl e
      | Inr p \<Rightarrow>
          if PRef (parent self) \<noteq> p then Inr True
          else (case getattr other ''char_start'' of
                  Inl e \<Rightarrow> Inl e
                | Inr cs \<Rightarrow>
                    if PInt (char_start self) \<noteq> cs then Inr True
                    else (case getattr other ''char_end'' of
                            Inl e \<Rightarrow> Inl e
                          | Inr ce \<Rightarrow> Inr (PInt (char_end self) \<noteq> ce))))"

definition TemporarySpan_ne :: "TemporarySpan \<Rightarrow> pyobj \<Rightarrow> error + bool" where
  "TemporarySpan_ne self other =
     (case ne_body self other of
        Inl (AttributeError _) \<Rightarrow> Inr True
      | r \<Rightarrow> r)"

text \<open>
  The builtin \<^verbatim>\<open>hash\<close> is a parameter: \<open>hash_obj\<close> on a \<^verbatim>\<open>Context\<close> object (by identity)
  and \<open>hash_int\<close> on an integer.
\<close>

definition TemporarySpan_hash :: "(ref \<Rightarrow> int) \<Rightarrow> (int \<Rightarrow> int) \<Rightarrow> TemporarySpan \<Rightarrow> int" where
  "TemporarySpan_hash hash_obj hash_int self =
     hash_obj (parent self) + hash_int (char_start self) + hash_int (char_end self)"

text \<open>
  \<^verbatim>\<open>Span\<close> redefines the three methods by identity (\<^verbatim>\<open>self is other\<close>, \<^verbatim>\<open>id(self)\<close>). A
  span object is its address, which is what \<^verbatim>\<open>id\<close> returns, and its state.
\<close>

record span_obj =
  addr :: nat
  state :: TemporarySpan

definition Span_eq :: "span_obj \<Rightarrow> span_obj \<Rightarrow> bool" where
  "Span_eq self other = (addr self = addr other)"

definition Span_ne :: "span_obj \<Rightarrow> span_obj \<Rightarrow> bool" where
  "Span_ne self other = (addr self \<noteq> addr other)"

definition Span_hash :: "span_obj \<Rightarrow> int" where
  "Span_hash self = int (addr self)"

text \<open>
  The expressions \<^verbatim>\<open>a == b\<close>, \<^verbatim>\<open>a != b\<close> and \<^verbatim>\<open>hash(a)\<close> on span objects. The method of
  the left operand's class runs, except that the right operand's method runs first when
  its class is a proper subclass of the left one's: a \<^verbatim>\<open>Span\<close> on either side decides
  by identity.
\<close>

definition span_equals :: "span_obj \<Rightarrow> span_obj \<Rightarrow> error + bool" where
  "span_equals a b =
     (case cls (state a) of
        Span_cls \<Rightarrow> Inr (Span_eq a b)
      | TemporarySpan_cls \<Rightarrow>
          (case cls (state b) of
             Span_cls \<Rightarrow> Inr (Span_eq b a)
           | TemporarySpan_cls \<Rightarrow> TemporarySpan_eq (state a) (attrs_of (state b))))"

definition span_differs :: "span_obj \<Rightarrow> span_obj \<Rightarrow> error + bool" where
  "span_differs a b =
     (case cls (state a) of
        Span_cls \<Rightarrow> Inr (Span_ne a b)
      | TemporarySpan_cls \<Rightarrow>
          (case cls (state b) of
             Span_cls \<Rightarrow> Inr (Span_ne b a)
           | TemporarySpan_cls \<Rightarrow> TemporarySpan_ne (state a) (attrs_of (state b))))"

definition span_hash :: "(ref \<Rightarrow> int) \<Rightarrow> (int \<Rightarrow> int) \<Rightarrow> span_obj \<Rightarrow> int" where
  "span_hash hash_obj hash_int a =
     (case cls (state a) of
        Span_cls \<Rightarrow> Span_hash a
      | TemporarySpan_cls \<Rightarrow> TemporarySpan_hash hash_obj hash_int (state a))"

subsection \<open>Containment and slicing\<close>

definition TemporarySpan_contains :: "TemporarySpan \<Rightarrow> TemporarySpan \<Rightarrow> bool" where
  "TemporarySpan_contains self other_span =
     (char_start other_span \<ge> char_start self \<and> char_end other_span \<le> char_end self)"

text \<open>A subscript: \<^verbatim>\<open>slice(start, stop, step)\<close> with \<open>None\<close> for a missing bound, or any other key.\<close>

datatype subscript = Slice "int option" "int option" "int option" | NotSlice pyval

definition TemporarySpan_getitem :: "TemporarySpan \<Rightarrow> subscript \<Rightarrow> error + TemporarySpan" where
  "TemporarySpan_getitem self key =
     (case key of
        Slice key_start key_stop key_step \<Rightarrow>
          (let cs = (case key_start of None \<Rightarrow> char_start self | Some j \<Rightarrow> char_start self + j);
               ce = (case key_stop of
                       None \<Rightarrow> char_end self
                     | Some k \<Rightarrow> if k \<ge> 0 then char_start self + k - 1 else char_end self + k)
           in Inr (get_instance self cs ce (parent self)))
      | NotSlice _ \<Rightarrow> Inl NotImplementedError)"

subsection \<open>Character offsets and tokens\<close>

text \<open>
  The loop of \<^verbatim>\<open>char_to_word_index\<close>: \<open>i\<close> is the loop variable (\<open>None\<close> before the
  first pass), \<open>n\<close> the index \<^verbatim>\<open>enumerate\<close> gives next.
\<close>

fun ctw_loop :: "int \<Rightarrow> int option \<Rightarrow> int \<Rightarrow> int list \<Rightarrow> int option" where
  "ctw_loop ci i n [] = i"
| "ctw_loop ci i n (co # rest) =
     (if ci = co then Some n
      else if ci < co then Some (n - 1)
      else ctw_loop ci (Some n) (n + 1) rest)"

definition char_to_word_index :: "heap \<Rightarrow> TemporarySpan \<Rightarrow> int \<Rightarrow> int option" where
  "char_to_word_index h self ci = ctw_loop ci None 0 (char_offsets (h (parent self)))"

definition get_word_start :: "heap \<Rightarrow> TemporarySpan \<Rightarrow> int option" where
  "get_word_start h self = char_to_word_index h self (char_start self)"

definition get_word_end :: "heap \<Rightarrow> TemporarySpan \<Rightarrow> int option" where
  "get_word_end h self = char_to_word_index h self (char_end self)"

text \<open>\<^verbatim>\<open>parent.__getattribute__(a)\<close>: the attribute of the parent named \<open>a\<close>.\<close>

definition opt_list :: "('a \<Rightarrow> pyval) \<Rightarrow> 'a list option \<Rightarrow> pyval" where
  "opt_list f v = (case v of None \<Rightarrow> PNone | Some xs \<Rightarrow> PList (map f xs))"

definition getattribute :: "Context \<Rightarrow> string \<Rightarrow> error + pyval" where
  "getattribute c a =
     (if a = ''id'' then Inr (case id_col c of None \<Rightarrow> PNone | Some i \<Rightarrow> PInt i)
      else if a = ''type'' then Inr (PStr (type_col c))
      else if a = ''stable_id'' then Inr (PStr (stable_id c))
      else if a = ''text'' then Inr (PStr (text_col c))
      else if a = ''words'' then Inr (PList (map PStr (words c)))
      else if a = ''char_offsets'' then Inr (PList (map PInt (char_offsets c)))
      else if a = ''lemmas'' then Inr (opt_list PStr (lemmas_col c))
      else if a = ''poses'' then Inr (opt_list PStr (poses c))
      else if a = ''dep_parents'' then Inr (opt_list PInt (dep_parents c))
      else if a = ''dep_labels'' then Inr (opt_list PStr (dep_labels c))
      else (case extra c a of None \<Rightarrow> Inl (AttributeError a) | Some v \<Rightarrow> Inr v))"

text \<open>
  \<^verbatim>\<open>xs[a:b]\<close> on a list or a string: a negative bound counts from the end, and both
  bounds are clipped to the length. A missing lower bound is \<open>None\<close>.
\<close>

definition slice_bound :: "int \<Rightarrow> int \<Rightarrow> int" where
  "slice_bound n i = (if i < 0 then max 0 (i + n) else min i n)"

definition py_slice :: "'a list \<Rightarrow> int \<Rightarrow> int \<Rightarrow> 'a list" where
  "py_slice xs a b =
     (let n = int (length xs); lo = slice_bound n a; hi = slice_bound n b
      in if lo < hi then take (nat (hi - lo)) (drop (nat lo) xs) else [])"

definition py_getslice :: "pyval \<Rightarrow> int option \<Rightarrow> int \<Rightarrow> error + pyval" where
  "py_getslice v a b =
     (let lo = (case a of None \<Rightarrow> 0 | Some i \<Rightarrow> i) in
      case v of
        PList xs \<Rightarrow> Inr (PList (py_slice xs lo b))
      | PStr s \<Rightarrow> Inr (PStr (py_slice s lo b))
      | _ \<Rightarrow> Inl (TypeError ''object has no attribute __getitem__''))"

definition get_attrib_tokens :: "heap \<Rightarrow> TemporarySpan \<Rightarrow> string \<Rightarrow> error + pyval" where
  "get_attrib_tokens h self a =
     (case getattribute (h (parent self)) a of
        Inl e \<Rightarrow> Inl e
      | Inr v \<Rightarrow>
          (let ws = get_word_start h self in
           case get_word_end h self of
             None \<Rightarrow> Inl (TypeError ''unsupported operand type(s) for +'')
           | Some we \<Rightarrow> py_getslice v ws (we + 1)))"

text \<open>
  \<^verbatim>\<open>sep.join(tokens)\<close>: every item must be a string; a string argument is joined
  character by character.
\<close>

fun str_join :: "string \<Rightarrow> string list \<Rightarrow> string" where
  "str_join sep [] = []"
| "str_join sep [x] = x"
| "str_join sep (x # y # r) = x @ sep @ str_join sep (y # r)"

fun as_strings :: "pyval list \<Rightarrow> string list option" where
  "as_strings [] = Some []"
| "as_strings (PStr x # r) = map_option ((#) x) (as_strings r)"
| "as_strings (_ # r) = None"

definition py_join :: "string \<Rightarrow> pyval \<Rightarrow> error + string" where
  "py_join sep v =
     (case v of
        PList items \<Rightarrow>
          (case as_strings items of
             None \<Rightarrow> Inl (TypeError ''sequence item: expected string'')
           | Some xs \<Rightarrow> Inr (str_join sep xs))
      | PStr s \<Rightarrow> Inr (str_join sep (map (\<lambda>c. [c]) s))
      | _ \<Rightarrow> Inl (TypeError ''can only join an iterable''))"

definition get_attrib_span :: "heap \<Rightarrow> TemporarySpan \<Rightarrow> string \<Rightarrow> string \<Rightarrow> error + string" where
  "get_attrib_span h self a sep =
     (if a = ''words''
      then Inr (py_slice (text_col (h (parent self))) (char_start self) (char_end self + 1))
      else (case get_attrib_tokens h self a of
              Inl e \<Rightarrow> Inl e
            | Inr v \<Rightarrow> py_join sep v))"

definition get_span :: "heap \<Rightarrow> TemporarySpan \<Rightarrow> string \<Rightarrow> error + string" where
  "get_span h self sep = get_attrib_span h self ''words'' sep"

subsection \<open>Stable id of a span\<close>

definition get_polymorphic_identity :: "TemporarySpan \<Rightarrow> string" where
  "get_polymorphic_identity self = ''span''"

definition get_table_name :: "TemporarySpan \<Rightarrow> string" where
  "get_table_name self = ''span''"

definition get_stable_id :: "heap \<Rightarrow> TemporarySpan \<Rightarrow> error + string" where
  "get_stable_id h self =
     construct_stable_id (h (parent self)) (get_polymorphic_identity self)
       (char_start self) (char_end self)"

section \<open>Materialization\<close>

text \<open>
  The session as \<^verbatim>\<open>load_id_or_insert\<close> uses it: the rows of the tables \<^verbatim>\<open>context\<close>
  and \<^verbatim>\<open>span\<close>.
\<close>

record context_row =
  row_id :: int
  row_type :: string
  row_stable_id :: string

record span_row =
  span_id :: int
  span_parent_id :: "int option"
  span_char_start :: int
  span_char_end :: int
  span_meta :: pyval

record session =
  context_table :: "context_row list"
  span_table :: "span_row list"

text \<open>
  What the store does on an insert is not in the module and is a parameter: \<open>new_key\<close>
  is the primary key it assigns to a new \<^verbatim>\<open>context\<close> row (what
  \<^verbatim>\<open>inserted_primary_key[0]\<close> returns), and \<open>context_refused\<close> and \<open>span_refused\<close> give
  the exception, if any, that \<^verbatim>\<open>session.execute\<close> raises on the insert of a row (a
  violated constraint, a value the driver cannot bind). A row that is not refused is
  appended to its table.
\<close>

record store =
  new_key :: "session \<Rightarrow> int"
  context_refused :: "session \<Rightarrow> context_row \<Rightarrow> error option"
  span_refused :: "session \<Rightarrow> span_row \<Rightarrow> error option"

text \<open>\<^verbatim>\<open>select([Context.id]).where(Context.stable_id == stable_id)\<close>, then \<^verbatim>\<open>.first()\<close>.\<close>

definition select_context_id :: "session \<Rightarrow> string \<Rightarrow> int option" where
  "select_context_id st sid =
     (case filter (\<lambda>r. row_stable_id r = sid) (context_table st) of
        [] \<Rightarrow> None
      | r # _ \<Rightarrow> Some (row_id r))"

definition insert_context ::
    "store \<Rightarrow> session \<Rightarrow> string \<Rightarrow> string \<Rightarrow> error + (int \<times> session)" where
  "insert_context db st typ sid =
     (let row = \<lparr>row_id = new_key db st, row_type = typ, row_stable_id = sid\<rparr> in
      case context_refused db st row of
        Some e \<Rightarrow> Inl e
      | None \<Rightarrow> Inr (row_id row, st\<lparr>context_table := context_table st @ [row]\<rparr>))"

definition insert_span :: "store \<Rightarrow> session \<Rightarrow> span_row \<Rightarrow> error + session" where
  "insert_span db st row =
     (case span_refused db st row of
        Some e \<Rightarrow> Inl e
      | None \<Rightarrow> Inr (st\<lparr>span_table := span_table st @ [row]\<rparr>))"

definition get_insert_args :: "heap \<Rightarrow> TemporarySpan \<Rightarrow> int \<Rightarrow> span_row" where
  "get_insert_args h self new_id =
     \<lparr>span_id = new_id, span_parent_id = id_col (h (parent self)),
      span_char_start = char_start self, span_char_end = char_end self,
      span_meta = meta self\<rparr>"

text \<open>
  The method mutates the candidate and the session, and may leave by an exception after
  it has done so: the result is the exception, if one was raised, with the candidate and
  the session as the method left them.
\<close>

definition load_id_or_insert ::
    "store \<Rightarrow> heap \<Rightarrow> TemporarySpan \<Rightarrow> session
       \<Rightarrow> error option \<times> TemporarySpan \<times> session" where
  "load_id_or_insert db h self st =
     (case id_attr self of
        Some _ \<Rightarrow> (None, self, st)
      | None \<Rightarrow>
          (case get_stable_id h self of
             Inl e \<Rightarrow> (Some e, self, st)
           | Inr sid \<Rightarrow>
               (case select_context_id st sid of
                  None \<Rightarrow>
                    (case insert_context db st (get_table_name self) sid of
                       Inl e \<Rightarrow> (Some e, self, st)
                     | Inr (new_id, st1) \<Rightarrow>
                         (let self1 = self\<lparr>id_attr := Some new_id\<rparr> in
                          case insert_span db st1 (get_insert_args h self1 new_id) of
                            Inl e \<Rightarrow> (Some e, self1, st1)
                          | Inr st2 \<Rightarrow> (None, self1, st2)))
                | Some i \<Rightarrow> (None, self\<lparr>id_attr := Some i\<rparr>, st))))"

section \<open>An example sentence\<close>

text \<open>The sentence \<^verbatim>\<open>the cat sat\<close>, at characters 10 to 20 of the document \<^verbatim>\<open>doc\<close>.\<close>

definition the_cat_sat :: Context where
  "the_cat_sat =
     \<lparr>id_col = Some 1, type_col = ''sentence'', stable_id = ''doc::sentence:10:20'',
      text_col = ''the cat sat'', words = [''the'', ''cat'', ''sat''],
      char_offsets = [0, 4, 10], lemmas_col = Some [''the'', ''cat'', ''sit''],
      poses = Some [''DT'', ''NN'', ''VBD''], dep_parents = Some [2, 3, 0],
      dep_labels = Some [''det'', ''nsubj'', ''ROOT''], extra = (\<lambda>_. None)\<rparr>"

text \<open>
  A heap with two parents that cover the same characters of the same document: the
  sentence at reference 0 and a phrase at every other reference.
\<close>

definition two_parents :: heap where
  "two_parents r =
     (if r = 0 then the_cat_sat
      else the_cat_sat\<lparr>id_col := Some 2, type_col := ''phrase'',
             stable_id := ''doc::phrase:10:20''\<rparr>)"

text \<open>
  A store that refuses no row and numbers the \<^verbatim>\<open>context\<close> rows from 1, and one whose
  driver cannot bind a list as the \<^verbatim>\<open>meta\<close> of a span.
\<close>

definition counting_store :: store where
  "counting_store =
     \<lparr>new_key = (\<lambda>st. int (length (context_table st)) + 1),
      context_refused = (\<lambda>st row. None),
      span_refused = (\<lambda>st row. None)\<rparr>"

definition strict_store :: store where
  "strict_store =
     counting_store\<lparr>span_refused :=
       (\<lambda>st row. case span_meta row of
                    PList _ \<Rightarrow> Some (DBAPIError ''Error binding parameter :meta'')
                  | _ \<Rightarrow> None)\<rparr>"

section \<open>Properties of TemporarySpan\<close>

subsection \<open>Slicing\<close>

text \<open>
  Claim C5. Slicing a span with any slice returns a span of the same class with the same
  parent. A missing lower bound gives \<open>char_start\<close>, a lower bound \<open>j\<close> gives
  \<open>char_start + j\<close>; a missing upper bound gives \<open>char_end\<close>, an upper bound \<open>k \<ge> 0\<close>
  gives \<open>char_start + k - 1\<close> and a negative one gives \<open>char_end + k\<close>. The method
  assigns to no attribute of \<open>self\<close>, so the original span is what it was.
\<close>

theorem getitem_slice_bounds:
  "\<exists>r. TemporarySpan_getitem self (Slice lo hi st) = Inr r
       \<and> cls r = cls self
       \<and> parent r = parent self
       \<and> char_start r = (case lo of None \<Rightarrow> char_start self | Some j \<Rightarrow> char_start self + j)
       \<and> char_end r = (case hi of
                         None \<Rightarrow> char_end self
                       | Some k \<Rightarrow> if 0 \<le> k then char_start self + k - 1 else char_end self + k)"
  by (cases "cls self")
     (simp_all add: TemporarySpan_getitem_def get_instance_def TemporarySpan_init_def Span_init_def)

theorem getitem_slice_bounds_witness:
  "\<exists>r. TemporarySpan_getitem (TemporarySpan_init 7 10 20 (PStr ''m'')) (Slice (Some 2) (Some (- 3)) None)
         = Inr r
       \<and> cls r = TemporarySpan_cls \<and> parent r = 7 \<and> char_start r = 12 \<and> char_end r = 17"
  using getitem_slice_bounds [of "TemporarySpan_init 7 10 20 (PStr ''m'')" "Some 2" "Some (- 3)" None]
  by (simp add: TemporarySpan_init_def)

text \<open>
  Claim C10. Whatever the \<open>meta\<close> of the span that is sliced, the span the slice returns
  has \<open>meta\<close> \<^verbatim>\<open>None\<close> (and no surrogate id): only the parent and the two offsets are
  handed to the constructor.
\<close>

theorem getitem_slice_meta_None:
  "\<exists>r. TemporarySpan_getitem (self\<lparr>meta := m\<rparr>) (Slice lo hi st) = Inr r
       \<and> meta r = PNone \<and> id_attr r = None"
  by (cases "cls self")
     (simp_all add: TemporarySpan_getitem_def get_instance_def TemporarySpan_init_def Span_init_def)

subsection \<open>Containment\<close>

text \<open>
  Claim C7. \<open>other in self\<close> holds exactly when \<open>other.char_start \<ge> self.char_start\<close> and
  \<open>other.char_end \<le> self.char_end\<close>; the parents of the two spans play no part. With one
  parent \<open>P\<close>, the span \<open>(2,5)\<close> contains \<open>(3,4)\<close> and does not contain \<open>(1,4)\<close>.
\<close>

theorem contains_iff:
  "TemporarySpan_contains self other
     = (char_start other \<ge> char_start self \<and> char_end other \<le> char_end self)
   \<and> TemporarySpan_contains (self\<lparr>parent := p\<rparr>) (other\<lparr>parent := q\<rparr>)
     = TemporarySpan_contains self other
   \<and> TemporarySpan_contains (TemporarySpan_init P 2 5 PNone) (TemporarySpan_init P 3 4 PNone)
   \<and> \<not> TemporarySpan_contains (TemporarySpan_init P 2 5 PNone) (TemporarySpan_init P 1 4 PNone)"
  by (simp add: TemporarySpan_contains_def TemporarySpan_init_def)

subsection \<open>Equality\<close>

lemma span_equals_Span:
  "cls (state a) = Span_cls \<or> cls (state b) = Span_cls
   \<Longrightarrow> span_equals a b = Inr (addr a = addr b) \<and> span_differs a b = Inr (addr a \<noteq> addr b)"
  by (cases "cls (state a)"; cases "cls (state b)")
     (auto simp: span_equals_def span_differs_def Span_eq_def Span_ne_def)

text \<open>
  Claim C6. For two objects of class \<^verbatim>\<open>TemporarySpan\<close>, \<open>a == b\<close> is true exactly when the
  parents are the same object and the two offsets agree, and \<open>a != b\<close> is its negation;
  the surrogate ids play no part; equal spans have equal hashes. With one parent \<open>P\<close>,
  two objects \<open>(P,0,4)\<close> are equal and \<open>(P,0,4)\<close> differs from \<open>(P,0,5)\<close>.
\<close>

theorem eq_iff_coordinates:
  assumes "cls (state a) = TemporarySpan_cls" and "cls (state b) = TemporarySpan_cls"
  shows "span_equals a b
     = Inr (parent (state a) = parent (state b) \<and> char_start (state a) = char_start (state b)
            \<and> char_end (state a) = char_end (state b))
   \<and> span_differs a b
     = Inr (\<not> (parent (state a) = parent (state b) \<and> char_start (state a) = char_start (state b)
               \<and> char_end (state a) = char_end (state b)))
   \<and> span_equals (a\<lparr>state := (state a)\<lparr>id_attr := i\<rparr>\<rparr>) (b\<lparr>state := (state b)\<lparr>id_attr := j\<rparr>\<rparr>)
     = span_equals a b
   \<and> (span_equals a b = Inr True
        \<longrightarrow> span_hash hash_obj hash_int a = span_hash hash_obj hash_int b)
   \<and> span_equals \<lparr>addr = m, state = TemporarySpan_init P 0 4 PNone\<rparr>
        \<lparr>addr = n, state = TemporarySpan_init P 0 4 PNone\<rparr> = Inr True
   \<and> span_differs \<lparr>addr = m, state = TemporarySpan_init P 0 4 PNone\<rparr>
        \<lparr>addr = n, state = TemporarySpan_init P 0 5 PNone\<rparr> = Inr True"
  using assms
  by (auto simp: span_equals_def span_differs_def span_hash_def TemporarySpan_eq_def
        TemporarySpan_ne_def eq_body_def ne_body_def getattr_def attrs_of_def
        TemporarySpan_hash_def TemporarySpan_init_def)

theorem eq_iff_coordinates_witness:
  "cls (state \<lparr>addr = 1, state = TemporarySpan_init 3 0 4 PNone\<lparr>id_attr := Some 11\<rparr>\<rparr>)
     = TemporarySpan_cls
   \<and> cls (state \<lparr>addr = 2, state = TemporarySpan_init 3 0 4 (PInt 1)\<lparr>id_attr := Some 12\<rparr>\<rparr>)
     = TemporarySpan_cls
   \<and> span_equals \<lparr>addr = 1, state = TemporarySpan_init 3 0 4 PNone\<lparr>id_attr := Some 11\<rparr>\<rparr>
       \<lparr>addr = 2, state = TemporarySpan_init 3 0 4 (PInt 1)\<lparr>id_attr := Some 12\<rparr>\<rparr> = Inr True
   \<and> span_hash int (\<lambda>n. n) \<lparr>addr = 1, state = TemporarySpan_init 3 0 4 PNone\<lparr>id_attr := Some 11\<rparr>\<rparr>
       = span_hash int (\<lambda>n. n)
           \<lparr>addr = 2, state = TemporarySpan_init 3 0 4 (PInt 1)\<lparr>id_attr := Some 12\<rparr>\<rparr>"
proof -
  let ?a = "\<lparr>addr = 1, state = TemporarySpan_init 3 0 4 PNone\<lparr>id_attr := Some 11\<rparr>\<rparr>"
  let ?b = "\<lparr>addr = 2, state = TemporarySpan_init 3 0 4 (PInt 1)\<lparr>id_attr := Some 12\<rparr>\<rparr>"
  have ca: "cls (state ?a) = TemporarySpan_cls" and cb: "cls (state ?b) = TemporarySpan_cls"
    by (simp_all add: TemporarySpan_init_def)
  from eq_iff_coordinates [OF ca cb, of "Some 11" "Some 12" int "\<lambda>n. n" 0 0 0]
  have "span_equals ?a ?b = Inr True"
    and "span_hash int (\<lambda>n. n) ?a = span_hash int (\<lambda>n. n) ?b"
    by (simp_all add: TemporarySpan_init_def)
  with ca cb show ?thesis by blast
qed

text \<open>
  Claim C9. When the right operand lacks one of the attributes \<open>parent\<close>, \<open>char_start\<close>,
  \<open>char_end\<close>, \<open>==\<close> returns \<open>False\<close> and \<open>!=\<close> returns \<open>True\<close>: both return a value, the
  \<^verbatim>\<open>AttributeError\<close> is caught.
\<close>

theorem eq_foreign_object:
  "other ''parent'' = None \<or> other ''char_start'' = None \<or> other ''char_end'' = None
   \<Longrightarrow> TemporarySpan_eq self other = Inr False \<and> TemporarySpan_ne self other = Inr True"
  by (auto simp: TemporarySpan_eq_def TemporarySpan_ne_def eq_body_def ne_body_def getattr_def
           split: option.splits)

theorem eq_foreign_object_witness:
  "((attrs_of (TemporarySpan_init 3 0 4 PNone))(''char_end'' := None)) ''char_end'' = None
   \<and> TemporarySpan_eq (TemporarySpan_init 3 0 4 PNone)
       ((attrs_of (TemporarySpan_init 3 0 4 PNone))(''char_end'' := None)) = Inr False
   \<and> TemporarySpan_ne (TemporarySpan_init 3 0 4 PNone)
       ((attrs_of (TemporarySpan_init 3 0 4 PNone))(''char_end'' := None)) = Inr True"
  using eq_foreign_object [of "(attrs_of (TemporarySpan_init 3 0 4 PNone))(''char_end'' := None)"
      "TemporarySpan_init 3 0 4 PNone"]
  by simp

subsection \<open>Token index of a character\<close>

lemma ctw_loop_exact:
  "sorted_wrt (<) cos \<Longrightarrow> k < length cos \<Longrightarrow> cos ! k = t
   \<Longrightarrow> ctw_loop t i n cos = Some (n + int k)"
proof (induction cos arbitrary: i n k)
  case Nil
  then show ?case by simp
next
  case (Cons co rest)
  show ?case
  proof (cases k)
    case 0
    with Cons.prems show ?thesis by simp
  next
    case (Suc k')
    with Cons.prems have k': "k' < length rest" "rest ! k' = t" and srt: "sorted_wrt (<) rest"
      by simp_all
    from k' have "t \<in> set rest" by auto
    with Cons.prems(1) have "co < t" by simp
    with Cons.IH [OF srt k', of "Some n" "n + 1"] Suc show ?thesis by simp
  qed
qed

lemma ctw_loop_before: "cos \<noteq> [] \<Longrightarrow> t < hd cos \<Longrightarrow> ctw_loop t i n cos = Some (n - 1)"
  by (cases cos) simp_all

lemma ctw_loop_between:
  "sorted_wrt (<) cos \<Longrightarrow> cos \<noteq> [] \<Longrightarrow> t \<notin> set cos \<Longrightarrow> hd cos < t \<Longrightarrow>
   \<exists>k<length cos. ctw_loop t i n cos = Some (n + int k) \<and> cos ! k < t
       \<and> (\<forall>j<length cos. cos ! j < t \<longrightarrow> j \<le> k)"
proof (induction cos arbitrary: i n)
  case Nil
  then show ?case by simp
next
  case (Cons co rest)
  then have lt: "co < t" by simp
  show ?case
  proof (cases rest)
    case Nil
    with lt show ?thesis by simp
  next
    case (Cons c2 r2)
    show ?thesis
    proof (cases "t < c2")
      case True
      have "\<forall>j<length (co # rest). (co # rest) ! j < t \<longrightarrow> j \<le> 0"
      proof (intro allI impI)
        fix j assume j: "j < length (co # rest)" and small: "(co # rest) ! j < t"
        show "j \<le> 0"
        proof (cases j)
          case 0
          then show ?thesis by simp
        next
          case (Suc j')
          with j have "rest ! j' \<in> set rest" by simp
          with Cons.prems(1) Cons have "c2 \<le> rest ! j'" by auto
          with True small Suc show ?thesis by simp
        qed
      qed
      moreover from lt True Cons have "ctw_loop t i n (co # rest) = Some (n + int 0)" by simp
      ultimately show ?thesis using lt by (intro exI [of _ 0]) simp
    next
      case False
      from Cons.prems have srt: "sorted_wrt (<) rest" and notin: "t \<notin> set rest" by simp_all
      from False notin Cons have "hd rest < t" by auto
      with Cons.IH [OF srt _ notin, of "Some n" "n + 1"] Cons
      obtain k where k: "k < length rest"
        "ctw_loop t (Some n) (n + 1) rest = Some (n + 1 + int k)"
        "rest ! k < t" "\<forall>j<length rest. rest ! j < t \<longrightarrow> j \<le> k"
        by auto
      have "\<forall>j<length (co # rest). (co # rest) ! j < t \<longrightarrow> j \<le> Suc k"
      proof (intro allI impI)
        fix j assume j: "j < length (co # rest)" and small: "(co # rest) ! j < t"
        show "j \<le> Suc k"
        proof (cases j)
          case 0
          then show ?thesis by simp
        next
          case (Suc j')
          with j small k(4) show ?thesis by simp
        qed
      qed
      moreover from lt k(2) have "ctw_loop t i n (co # rest) = Some (n + int (Suc k))" by simp
      ultimately show ?thesis using k(1,3) by (intro exI [of _ "Suc k"]) simp
    qed
  qed
qed

text \<open>
  Claim C4. Let the parent's \<open>char_offsets\<close> be non-empty and strictly increasing. Then
  \<open>char_to_word_index\<close> of a target returns the index whose offset is the target when
  there is one; when there is none and the target lies behind the first offset, the last
  index whose offset is below the target; and \<open>-1\<close>, one below the first index, when the
  target lies before the first offset.
\<close>

theorem char_to_word_index_spec:
  assumes "char_offsets (h (parent self)) = cos" and "cos \<noteq> []" and "sorted_wrt (<) cos"
  shows "(\<forall>k. k < length cos \<and> cos ! k = t \<longrightarrow> char_to_word_index h self t = Some (int k))
       \<and> (t \<notin> set cos \<and> hd cos < t \<longrightarrow>
            (\<exists>k<length cos. char_to_word_index h self t = Some (int k) \<and> cos ! k < t
                \<and> (\<forall>j<length cos. cos ! j < t \<longrightarrow> j \<le> k)))
       \<and> (t < hd cos \<longrightarrow> char_to_word_index h self t = Some (- 1))"
  using assms ctw_loop_exact [of cos _ t None 0] ctw_loop_before [of cos t None 0]
    ctw_loop_between [of cos t None 0]
  by (simp add: char_to_word_index_def)

theorem char_to_word_index_spec_witness:
  "char_offsets ((\<lambda>_. the_cat_sat) (parent (TemporarySpan_init 0 4 6 PNone))) = [0, 4, 10]
   \<and> [0, 4, 10] \<noteq> ([] :: int list) \<and> sorted_wrt (<) [0, 4, 10 :: int]
   \<and> char_to_word_index (\<lambda>_. the_cat_sat) (TemporarySpan_init 0 4 6 PNone) 4 = Some 1
   \<and> char_to_word_index (\<lambda>_. the_cat_sat) (TemporarySpan_init 0 4 6 PNone) 6 = Some 1
   \<and> char_to_word_index (\<lambda>_. the_cat_sat) (TemporarySpan_init 0 4 6 PNone) 0 = Some 0
   \<and> char_to_word_index (\<lambda>_. the_cat_sat) (TemporarySpan_init 0 4 6 PNone) (- 3) = Some (- 1)"
proof -
  let ?h = "\<lambda>_ :: ref. the_cat_sat" and ?s = "TemporarySpan_init 0 4 6 PNone"
  have a: "char_offsets (?h (parent ?s)) = [0, 4, 10]"
    by (simp add: the_cat_sat_def)
  have b: "[0, 4, 10] \<noteq> ([] :: int list)" and c: "sorted_wrt (<) [0, 4, 10 :: int]"
    by simp_all
  from char_to_word_index_spec [OF a b c, of 4]
  have "\<forall>k. k < 3 \<and> [0, 4, 10 :: int] ! k = 4 \<longrightarrow> char_to_word_index ?h ?s 4 = Some (int k)"
    by simp
  then have "1 < (3::nat) \<and> [0, 4, 10 :: int] ! 1 = 4 \<longrightarrow> char_to_word_index ?h ?s 4 = Some (int 1)"
    by (rule spec)
  then have r4: "char_to_word_index ?h ?s 4 = Some 1"
    by simp
  have r6: "char_to_word_index ?h ?s 6 = Some 1" and r0: "char_to_word_index ?h ?s 0 = Some 0"
    and rm: "char_to_word_index ?h ?s (- 3) = Some (- 1)"
    by (simp_all add: char_to_word_index_def the_cat_sat_def TemporarySpan_init_def)
  from a b c r4 r6 r0 rm show ?thesis by simp
qed

section \<open>Properties of the stable-id codec\<close>

subsection \<open>Finding and splitting\<close>

lemma str_find_short: "length t < length sep \<Longrightarrow> str_find sep t = None"
  using str_find_bound [of sep t] by (cases "str_find sep t") auto

lemma take_sep_append:
  assumes "sep \<noteq> []" and "u \<noteq> []"
  shows "take (length sep) (u @ sep @ v) = take (length sep) (u @ butlast sep)"
proof -
  have "u @ sep @ v = (u @ butlast sep) @ (last sep # v)"
    using assms(1) by simp
  moreover have "length sep \<le> length (u @ butlast sep)"
    using assms by (cases sep; cases u) simp_all
  ultimately have "take (length sep) (u @ sep @ v)
      = take (length sep) ((u @ butlast sep) @ (last sep # v))"
    by (simp only:)
  also have "\<dots> = take (length sep) (u @ butlast sep)"
    using \<open>length sep \<le> length (u @ butlast sep)\<close> by (simp only: take_append) simp
  finally show ?thesis .
qed

lemma str_find_first:
  "sep \<noteq> [] \<Longrightarrow> str_find sep (u @ butlast sep) = None
   \<Longrightarrow> str_find sep (u @ sep @ v) = Some (length u)"
proof (induction u)
  case Nil
  then obtain c r where "sep = c # r" by (cases sep) auto
  then show ?case by simp
next
  case (Cons x u)
  from Cons.prems(2) have ne: "take (length sep) (x # u @ butlast sep) \<noteq> sep"
    and rest: "str_find sep (u @ butlast sep) = None"
    by (auto split: if_splits)
  from ne take_sep_append [OF Cons.prems(1), of "x # u" v]
  have "take (length sep) (x # u @ sep @ v) \<noteq> sep" by simp
  with Cons.IH [OF Cons.prems(1) rest] show ?case by simp
qed

lemma str_find_decomp:
  "sep \<noteq> [] \<Longrightarrow> str_find sep s = Some i
   \<Longrightarrow> s = take i s @ sep @ drop (i + length sep) s \<and> str_find sep (take i s @ butlast sep) = None"
proof (induction s arbitrary: i)
  case Nil
  then show ?case by simp
next
  case (Cons c cs)
  show ?case
  proof (cases "take (length sep) (c # cs) = sep")
    case True
    with Cons.prems have i: "i = 0" by simp
    have "take (length sep) (c # cs) @ drop (length sep) (c # cs) = c # cs"
      by (rule append_take_drop_id)
    with True have "c # cs = sep @ drop (length sep) (c # cs)" by simp
    moreover have "str_find sep (butlast sep) = None"
      using Cons.prems(1) by (intro str_find_short) (cases sep, simp_all)
    ultimately show ?thesis using i by simp
  next
    case False
    with Cons.prems obtain j where j: "str_find sep cs = Some j" and i: "i = Suc j"
      by auto
    from Cons.IH [OF Cons.prems(1) j]
    have dec: "cs = take j cs @ sep @ drop (j + length sep) cs"
      and none: "str_find sep (take j cs @ butlast sep) = None" by simp_all
    from dec have "c # cs = (c # take j cs) @ sep @ drop (j + length sep) cs" by simp
    then have "take (length sep) (c # cs) = take (length sep) ((c # take j cs) @ butlast sep)"
      using take_sep_append [OF Cons.prems(1), of "c # take j cs" "drop (j + length sep) cs"]
      by simp
    with False have "take (length sep) (c # take j cs @ butlast sep) \<noteq> sep" by simp
    with none dec i show ?thesis by simp
  qed
qed

lemma str_split_None: "str_find sep s = None \<Longrightarrow> str_split sep s = [s]"
  by (simp add: str_split.simps)

lemma str_split_first:
  "sep \<noteq> [] \<Longrightarrow> str_find sep (u @ butlast sep) = None
   \<Longrightarrow> str_split sep (u @ sep @ v) = u # str_split sep v"
  using str_find_first [of sep u v] by (subst str_split.simps) simp

lemma str_split_Cons:
  assumes "sep \<noteq> []" and "str_split sep s = u # p # ps"
  shows "\<exists>v. s = u @ sep @ v \<and> str_find sep (u @ butlast sep) = None \<and> str_split sep v = p # ps"
proof (cases "str_find sep s")
  case None
  with assms show ?thesis by (simp add: str_split.simps)
next
  case (Some i)
  with assms have "u = take i s" "str_split sep (drop (i + length sep) s) = p # ps"
    by (simp_all add: str_split.simps [of sep s])
  with str_find_decomp [OF assms(1) Some] show ?thesis by metis
qed

lemma str_find_skip:
  "c \<notin> set u \<Longrightarrow> str_find (c # r) (u @ v) = map_option (\<lambda>i. i + length u) (str_find (c # r) v)"
proof (induction u)
  case Nil
  then show ?case by (simp add: option.map_ident)
next
  case (Cons x u)
  then show ?case by (auto simp: option.map_comp comp_def)
qed

lemma str_find_absent: "c \<notin> set u \<Longrightarrow> str_find (c # r) u = None"
  using str_find_skip [of c u r "[]"] by simp

lemma str_find_double_step:
  "x \<noteq> c \<Longrightarrow> str_find [c, c] (c # x # v) = map_option Suc (str_find [c, c] (x # v))"
  by simp

lemma no_double_colon:
  assumes "c \<notin> set k" and "sx \<noteq> []" and "c \<notin> set sx" and "sy \<noteq> []" and "c \<notin> set sy"
  shows "str_find [c, c] (k @ [c] @ sx @ [c] @ sy) = None"
proof -
  obtain x sx' where sx: "sx = x # sx'" using assms(2) by (cases sx) auto
  obtain y sy' where sy: "sy = y # sy'" using assms(4) by (cases sy) auto
  have a: "str_find [c, c] sy = None"
    using assms(5) by (rule str_find_absent)
  have "str_find [c, c] (c # sy) = None"
    using a assms(5) str_find_double_step [of y c sy'] unfolding sy by auto
  then have "str_find [c, c] (sx @ c # sy) = None"
    using str_find_skip [OF assms(3), of "[c]" "c # sy"] by simp
  then have "str_find [c, c] (c # sx @ c # sy) = None"
    using assms(3) str_find_double_step [of x c "sx' @ c # sy"] unfolding sx by auto
  then show ?thesis
    using str_find_skip [OF assms(1), of "[c]" "c # sx @ c # sy"] by simp
qed

subsection \<open>Printing and reading an integer\<close>

lemma is_digit_digit_char: "d < 10 \<Longrightarrow> is_digit (digit_char d)"
  by (simp add: is_digit_def digit_char_def)

lemma digit_val_digit_char: "d < 10 \<Longrightarrow> digit_val (digit_char d) = d"
  by (simp add: digit_val_def digit_char_def)

lemma str_nat_digits: "list_all is_digit (str_nat n)"
proof (induction n rule: str_nat.induct)
  case (1 n)
  then show ?case
    by (subst str_nat.simps) (simp add: is_digit_digit_char)
qed

lemma str_nat_nonempty: "str_nat n \<noteq> []"
  by (subst str_nat.simps) simp

lemma digits_val_snoc: "digits_val (ds @ [c]) = 10 * digits_val ds + digit_val c"
  by (simp add: digits_val_def)

lemma digits_val_str_nat: "digits_val (str_nat n) = n"
proof (induction n rule: str_nat.induct)
  case (1 n)
  show ?case
  proof (cases "n < 10")
    case True
    then show ?thesis
      by (subst str_nat.simps) (simp add: digits_val_def digit_val_digit_char)
  next
    case False
    with 1 have "digits_val (str_nat (n div 10)) = n div 10" by simp
    with False show ?thesis
      by (subst str_nat.simps) (simp add: digits_val_snoc digit_val_digit_char)
  qed
qed

lemma digits_int_str_nat: "digits_int (str_nat n) = Some (int n)"
  by (simp add: digits_int_def str_nat_nonempty str_nat_digits digits_val_str_nat)

lemma is_digit_not_special:
  "is_digit c \<Longrightarrow> \<not> is_space c \<and> c \<noteq> CHR ''-'' \<and> c \<noteq> CHR ''+'' \<and> c \<noteq> CHR '':''"
  by (auto simp: is_digit_def is_space_def)

lemma str_strip_id: "s \<noteq> [] \<Longrightarrow> \<not> is_space (hd s) \<Longrightarrow> \<not> is_space (last s) \<Longrightarrow> str_strip s = s"
proof -
  assume ne: "s \<noteq> []" and h: "\<not> is_space (hd s)" and l: "\<not> is_space (last s)"
  from ne h have "dropWhile is_space s = s" by (cases s) simp_all
  moreover from ne l have "dropWhile is_space (rev s) = rev s"
    by (cases "rev s") (simp_all add: hd_rev [symmetric])
  ultimately show ?thesis by (simp add: str_strip_def)
qed

lemma str_nat_hd_last: "is_digit (hd (str_nat n)) \<and> is_digit (last (str_nat n))"
  using str_nat_digits [of n] str_nat_nonempty [of n]
  by (simp add: list_all_iff)

lemma py_str_colon_free: "CHR '':'' \<notin> set (py_str n)"
  using str_nat_digits is_digit_not_special
  by (auto simp: py_str_def list_all_iff)

lemma py_str_nonempty: "py_str n \<noteq> []"
  by (simp add: py_str_def str_nat_nonempty)

lemma py_int_py_str: "py_int (py_str n) = Some n"
proof (cases "n < 0")
  case True
  have "str_strip (CHR ''-'' # str_nat (nat (- n))) = CHR ''-'' # str_nat (nat (- n))"
    using str_nat_hd_last [of "nat (- n)"] is_digit_not_special str_nat_nonempty [of "nat (- n)"]
    by (intro str_strip_id) (simp_all add: is_space_def)
  moreover have "dropWhile is_space (str_nat (nat (- n))) = str_nat (nat (- n))"
    using str_nat_hd_last [of "nat (- n)"] is_digit_not_special str_nat_nonempty [of "nat (- n)"]
    by (cases "str_nat (nat (- n))") auto
  ultimately show ?thesis
    using True by (simp add: py_int_def py_str_def digits_int_str_nat)
next
  case False
  obtain c r where cr: "str_nat (nat n) = c # r"
    using str_nat_nonempty [of "nat n"] by (cases "str_nat (nat n)") auto
  have strip: "str_strip (str_nat (nat n)) = str_nat (nat n)"
    using str_nat_hd_last [of "nat n"] is_digit_not_special str_nat_nonempty [of "nat n"]
    by (intro str_strip_id) simp_all
  from cr str_nat_hd_last [of "nat n"] is_digit_not_special [of c]
  have "c \<noteq> CHR ''-''" "c \<noteq> CHR ''+''" by simp_all
  with False strip cr digits_int_str_nat [of "nat n"] show ?thesis
    by (simp add: py_int_def py_str_def)
qed

subsection \<open>Splitting a stable id\<close>

lemma length_2_iff: "length xs = 2 \<longleftrightarrow> (\<exists>a b. xs = [a, b])"
  by (cases xs; cases "tl xs"; cases "tl (tl xs)") auto

lemma length_3_iff: "length xs = 3 \<longleftrightarrow> (\<exists>a b c. xs = [a, b, c])"
  by (cases xs; cases "tl xs"; cases "tl (tl xs)"; cases "tl (tl (tl xs))") auto

lemma split_stable_id_Inr_iff:
  "split_stable_id sid = Inr (root, kind, x, y) \<longleftrightarrow>
     (\<exists>rest a b. str_split ''::'' sid = [root, rest] \<and> str_split '':'' rest = [kind, a, b]
        \<and> py_int a = Some x \<and> py_int b = Some y)"
  unfolding split_stable_id_def Let_def length_2_iff length_3_iff
  by (auto split: option.splits)

lemma split_stable_id_root:
  assumes "split_stable_id sid = Inr (root, kind, x, y)"
  shows "str_find ''::'' (root @ '':'') = None"
proof -
  from assms obtain rest where "str_split ''::'' sid = [root, rest]"
    unfolding split_stable_id_Inr_iff by blast
  with str_split_Cons [of "''::''" sid root rest "[]"] show ?thesis by auto
qed

lemma str_split_fields:
  assumes "CHR '':'' \<notin> set k" and "CHR '':'' \<notin> set a" and "CHR '':'' \<notin> set b"
  shows "str_split '':'' (k @ '':'' @ a @ '':'' @ b) = [k, a, b]"
proof -
  have "str_split '':'' b = [b]"
    using assms(3) by (intro str_split_None str_find_absent)
  moreover have "str_split '':'' (a @ '':'' @ b) = a # str_split '':'' b"
    using assms(2) by (intro str_split_first) (simp_all add: str_find_absent)
  moreover have "str_split '':'' (k @ '':'' @ a @ '':'' @ b) = k # str_split '':'' (a @ '':'' @ b)"
    using assms(1) by (intro str_split_first) (simp_all add: str_find_absent)
  ultimately show ?thesis by simp
qed

lemma split_stable_id_formatted:
  assumes root: "str_find ''::'' (root @ '':'') = None" and k: "CHR '':'' \<notin> set k"
  shows "split_stable_id (root @ ''::'' @ k @ '':'' @ py_str x @ '':'' @ py_str y)
           = Inr (root, k, x, y)"
proof -
  let ?rest = "k @ '':'' @ py_str x @ '':'' @ py_str y"
  have "str_find ''::'' ?rest = None"
    using no_double_colon [OF k py_str_nonempty py_str_colon_free py_str_nonempty py_str_colon_free]
    by simp
  then have "str_split ''::'' ?rest = [?rest]"
    by (rule str_split_None)
  moreover have "str_split ''::'' (root @ ''::'' @ ?rest) = root # str_split ''::'' ?rest"
    using root by (intro str_split_first) simp_all
  ultimately have "str_split ''::'' (root @ ''::'' @ ?rest) = [root, ?rest]"
    by simp
  moreover have "str_split '':'' ?rest = [k, py_str x, py_str y]"
    using k py_str_colon_free [of x] py_str_colon_free [of y] by (rule str_split_fields)
  ultimately show ?thesis
    unfolding split_stable_id_Inr_iff by (simp add: py_int_py_str)
qed


lemma str_split_nonempty: "str_split sep s \<noteq> []"
  by (subst str_split.simps) (simp split: option.splits)

lemma str_split_single:
  "sep \<noteq> [] \<Longrightarrow> str_split sep s = [p] \<Longrightarrow> s = p \<and> str_find sep s = None"
  by (cases "str_find sep s") (simp_all add: str_split.simps [of sep s] str_split_nonempty)

lemma split_stable_id_shape:
  assumes "split_stable_id sid = Inr (root, kind, x, y)"
  shows "\<exists>a b. sid = root @ ''::'' @ kind @ '':'' @ a @ '':'' @ b
           \<and> py_int a = Some x \<and> py_int b = Some y"
proof -
  from assms obtain rest a b where s1: "str_split ''::'' sid = [root, rest]"
    and s2: "str_split '':'' rest = [kind, a, b]" and ints: "py_int a = Some x" "py_int b = Some y"
    unfolding split_stable_id_Inr_iff by blast
  from str_split_Cons [of "''::''" sid root rest "[]"] s1
  obtain v where v: "sid = root @ ''::'' @ v" "str_split ''::'' v = [rest]" by auto
  from str_split_single [OF _ v(2)] have "v = rest" by simp
  from str_split_Cons [of "'':''" rest kind a "[b]"] s2
  obtain w where w: "rest = kind @ '':'' @ w" "str_split '':'' w = [a, b]" by auto
  from str_split_Cons [of "'':''" w a b "[]"] w(2)
  obtain u where u: "w = a @ '':'' @ u" "str_split '':'' u = [b]" by auto
  from str_split_single [OF _ u(2)] have "u = b" by simp
  with v(1) \<open>v = rest\<close> w(1) u(1) ints show ?thesis by auto
qed

text \<open>
  Claim C2. \<open>split_stable_id\<close> raises \<^verbatim>\<open>ValueError\<close> exactly when the string does not
  split at \<^verbatim>\<open>::\<close> into two parts of which the second splits at \<^verbatim>\<open>:\<close> into three
  fields, the last two being integer literals. It raises on \<^verbatim>\<open>noseparator\<close>,
  \<^verbatim>\<open>a::b\<close> and \<^verbatim>\<open>a::b:c\<close>, and returns \<open>(root, span, 3, 7)\<close> on \<^verbatim>\<open>root::span:3:7\<close>.
\<close>

theorem split_stable_id_malformed:
  "((\<exists>msg. split_stable_id sid = Inl (ValueError msg)) \<longleftrightarrow>
      \<not> (\<exists>root rest kind a b. str_split ''::'' sid = [root, rest]
            \<and> str_split '':'' rest = [kind, a, b] \<and> py_int a \<noteq> None \<and> py_int b \<noteq> None))
   \<and> ((\<exists>e. split_stable_id sid = Inl e) \<longleftrightarrow> (\<exists>msg. split_stable_id sid = Inl (ValueError msg)))
   \<and> split_stable_id ''noseparator'' = Inl (ValueError ''Malformed stable_id:'')
   \<and> split_stable_id ''a::b'' = Inl (ValueError ''Malformed stable_id:'')
   \<and> split_stable_id ''a::b:c'' = Inl (ValueError ''Malformed stable_id:'')
   \<and> split_stable_id ''root::span:3:7'' = Inr (''root'', ''span'', 3, 7)"
proof -
  have "(\<exists>msg. split_stable_id sid = Inl (ValueError msg)) \<longleftrightarrow>
      \<not> (\<exists>root rest kind a b. str_split ''::'' sid = [root, rest]
            \<and> str_split '':'' rest = [kind, a, b] \<and> py_int a \<noteq> None \<and> py_int b \<noteq> None)"
    unfolding split_stable_id_def Let_def length_2_iff length_3_iff
    by (auto split: option.splits)
  moreover have "(\<exists>e. split_stable_id sid = Inl e)
      \<longleftrightarrow> (\<exists>msg. split_stable_id sid = Inl (ValueError msg))"
    unfolding split_stable_id_def Let_def
    by (auto split: option.splits)
  moreover have "split_stable_id ''noseparator'' = Inl (ValueError ''Malformed stable_id:'')"
    by code_simp
  moreover have "split_stable_id ''a::b'' = Inl (ValueError ''Malformed stable_id:'')"
    by code_simp
  moreover have "split_stable_id ''a::b:c'' = Inl (ValueError ''Malformed stable_id:'')"
    by code_simp
  moreover have "split_stable_id ''root::span:3:7'' = Inr (''root'', ''span'', 3, 7)"
    by code_simp
  ultimately show ?thesis by blast
qed

subsection \<open>Round trip\<close>

text \<open>
  Claim C1, as stated, for any kind string: it fails for a kind that contains a colon.
  The parent \<open>the_cat_sat\<close> has a well-formed stable id with root \<^verbatim>\<open>doc\<close> and start 10;
  with the kind \<^verbatim>\<open>a:b\<close> and the offsets 0 and 1 the constructed id is
  \<^verbatim>\<open>doc::a:b:10:11\<close>, which \<open>split_stable_id\<close> rejects.
\<close>

theorem stable_id_round_trip_counterexample:
  "split_stable_id (stable_id the_cat_sat) = Inr (''doc'', ''sentence'', 10, 20)
   \<and> construct_stable_id the_cat_sat ''a:b'' 0 1 = Inr ''doc::a:b:10:11''
   \<and> split_stable_id ''doc::a:b:10:11'' = Inl (ValueError ''Malformed stable_id:'')"
proof -
  have "split_stable_id (stable_id the_cat_sat) = Inr (''doc'', ''sentence'', 10, 20)"
    by code_simp
  moreover have "construct_stable_id the_cat_sat ''a:b'' 0 1 = Inr ''doc::a:b:10:11''"
    by code_simp
  moreover have "split_stable_id ''doc::a:b:10:11'' = Inl (ValueError ''Malformed stable_id:'')"
    by code_simp
  ultimately show ?thesis by blast
qed

text \<open>
  Claim C1, amended. Let the parent's stable id split into root \<open>R\<close> and start \<open>A\<close>, and
  let the kind \<open>k\<close> contain no colon. Then for all integers \<open>s\<close> and \<open>e\<close> (so also for
  \<open>0 \<le> s \<le> e\<close>) \<open>construct_stable_id\<close> returns an id, and \<open>split_stable_id\<close> of that id
  returns \<open>(R, k, A + s, A + e)\<close>.
\<close>

theorem stable_id_round_trip:
  assumes "split_stable_id (stable_id parent_context) = Inr (R, k0, A, e0)"
    and "CHR '':'' \<notin> set k"
  shows "\<exists>sid. construct_stable_id parent_context k s e = Inr sid
           \<and> split_stable_id sid = Inr (R, k, A + s, A + e)"
  using assms split_stable_id_formatted [OF split_stable_id_root [OF assms(1)] assms(2)]
  by (simp add: construct_stable_id_def)

theorem stable_id_round_trip_witness:
  "split_stable_id (stable_id the_cat_sat) = Inr (''doc'', ''sentence'', 10, 20)
   \<and> CHR '':'' \<notin> set ''span''
   \<and> (\<exists>sid. construct_stable_id the_cat_sat ''span'' 4 6 = Inr sid
          \<and> split_stable_id sid = Inr (''doc'', ''span'', 14, 16))"
proof -
  have a: "split_stable_id (stable_id the_cat_sat) = Inr (''doc'', ''sentence'', 10, 20)"
    by code_simp
  have b: "CHR '':'' \<notin> set ''span''"
    by simp
  from stable_id_round_trip [OF a b, of 4 6] a b show ?thesis by simp
qed

section \<open>Properties of materialization\<close>

lemma select_context_id_None_iff:
  "select_context_id st sid = None
     \<longleftrightarrow> filter (\<lambda>r. row_stable_id r = sid) (context_table st) = []"
  by (simp add: select_context_id_def split: list.splits)

lemma load_id_or_insert_set:
  "id_attr self = Some i \<Longrightarrow> load_id_or_insert db h self st = (None, self, st)"
  by (simp add: load_id_or_insert_def)

lemma load_id_or_insert_found:
  "id_attr self = None \<Longrightarrow> get_stable_id h self = Inr sid \<Longrightarrow> select_context_id st sid = Some i
   \<Longrightarrow> load_id_or_insert db h self st = (None, self\<lparr>id_attr := Some i\<rparr>, st)"
  by (simp add: load_id_or_insert_def)

lemma load_id_or_insert_inserted:
  assumes "id_attr self = None" and "get_stable_id h self = Inr sid"
    and "select_context_id st sid = None"
    and "load_id_or_insert db h self st = (None, self', st')"
  shows "self' = self\<lparr>id_attr := Some (new_key db st)\<rparr>
       \<and> context_table st' = context_table st
            @ [\<lparr>row_id = new_key db st, row_type = ''span'', row_stable_id = sid\<rparr>]
       \<and> span_table st' = span_table st
            @ [\<lparr>span_id = new_key db st, span_parent_id = id_col (h (parent self)),
                span_char_start = char_start self, span_char_end = char_end self,
                span_meta = meta self\<rparr>]"
  using assms
  by (auto simp: load_id_or_insert_def insert_context_def insert_span_def get_insert_args_def
        get_table_name_def Let_def split: option.splits)

lemma load_id_or_insert_changes:
  assumes "load_id_or_insert db h self st = (r, self', st')" and "st' \<noteq> st"
  shows "id_attr self = None
       \<and> (\<exists>sid. get_stable_id h self = Inr sid \<and> select_context_id st sid = None)"
  using assms
  by (auto simp: load_id_or_insert_def split: option.splits sum.splits)

lemma load_id_or_insert_one_row:
  assumes "id_attr self = None" and "get_stable_id h self = Inr sid"
    and "length (filter (\<lambda>r. row_stable_id r = sid) (context_table st)) \<le> 1"
    and "load_id_or_insert db h self st = (None, self', st')"
  shows "length (filter (\<lambda>r. row_stable_id r = sid) (context_table st')) = 1
       \<and> (\<exists>i. id_attr self' = Some i \<and> select_context_id st' sid = Some i)"
proof (cases "select_context_id st sid")
  case None
  then have empty: "filter (\<lambda>r. row_stable_id r = sid) (context_table st) = []"
    by (simp add: select_context_id_None_iff)
  from load_id_or_insert_inserted [OF assms(1,2) None assms(4)] empty
  show ?thesis
    by (simp add: select_context_id_def)
next
  case (Some i)
  with assms(1,2,4) have eq: "self' = self\<lparr>id_attr := Some i\<rparr>" "st' = st"
    by (simp_all add: load_id_or_insert_found)
  from Some obtain r rs where "filter (\<lambda>r. row_stable_id r = sid) (context_table st) = r # rs"
    by (auto simp: select_context_id_def split: list.splits)
  with assms(3) have "length (filter (\<lambda>r. row_stable_id r = sid) (context_table st)) = 1"
    by simp
  with eq Some show ?thesis by simp
qed

lemma load_id_or_insert_accepted:
  assumes "\<forall>s r. context_refused db s r = None" and "\<forall>s r. span_refused db s r = None"
    and "get_stable_id h self = Inr sid"
  shows "fst (load_id_or_insert db h self st) = None"
  using assms
  by (auto simp: load_id_or_insert_def insert_context_def insert_span_def Let_def
        split: option.splits)

text \<open>
  When the store refuses the \<^verbatim>\<open>span\<close> row, the exception leaves the candidate with the
  new id and the session with the new \<^verbatim>\<open>context\<close> row.
\<close>

lemma load_id_or_insert_span_refused:
  assumes "id_attr self = None" and "get_stable_id h self = Inr sid"
    and "select_context_id st sid = None"
    and "context_refused db st
           \<lparr>row_id = new_key db st, row_type = ''span'', row_stable_id = sid\<rparr> = None"
    and "span_refused db
           (st\<lparr>context_table := context_table st
                  @ [\<lparr>row_id = new_key db st, row_type = ''span'', row_stable_id = sid\<rparr>]\<rparr>)
           (get_insert_args h (self\<lparr>id_attr := Some (new_key db st)\<rparr>) (new_key db st)) = Some e"
  shows "load_id_or_insert db h self st =
           (Some e, self\<lparr>id_attr := Some (new_key db st)\<rparr>,
            st\<lparr>context_table := context_table st
                  @ [\<lparr>row_id = new_key db st, row_type = ''span'', row_stable_id = sid\<rparr>]\<rparr>)"
  using assms
  by (simp add: load_id_or_insert_def insert_context_def insert_span_def get_table_name_def
        Let_def)

lemma load_id_or_insert_unbound_meta:
  "load_id_or_insert strict_store two_parents (TemporarySpan_init 0 4 6 (PList [PInt 1]))
       \<lparr>context_table = [], span_table = []\<rparr>
     = (Some (DBAPIError ''Error binding parameter :meta''),
        TemporarySpan_init 0 4 6 (PList [PInt 1])\<lparr>id_attr := Some 1\<rparr>,
        \<lparr>context_table = [\<lparr>row_id = 1, row_type = ''span'', row_stable_id = ''doc::span:14:16''\<rparr>],
         span_table = []\<rparr>)"
  by code_simp

text \<open>
  Claim C3. Whatever the store assigns and refuses: (1) A candidate whose id is set is
  returned as it is, with the session as it is. (2) Otherwise, when the \<^verbatim>\<open>context\<close> table
  has a row with the candidate's stable id, the candidate takes the id of that row and
  the session is unchanged. (3) When it has none and the call returns, the candidate
  takes the key the store assigned, and the session has gained one \<^verbatim>\<open>context\<close> row and
  one \<^verbatim>\<open>span\<close> row with that key. (4) A call that leaves a changed session found no row.
  (5) For two candidates with the same stable id and a table with at most one row of that
  stable id (the column is unique): if the call on the first returns, the call on the
  second returns the same id, leaves the session as the first call left it, and the
  table has exactly one row with that stable id.
\<close>

theorem load_id_or_insert_spec:
  "(id_attr self \<noteq> None \<longrightarrow> load_id_or_insert db h self st = (None, self, st))
   \<and> (id_attr self = None \<and> get_stable_id h self = Inr sid \<and> select_context_id st sid = Some i
        \<longrightarrow> load_id_or_insert db h self st = (None, self\<lparr>id_attr := Some i\<rparr>, st))
   \<and> (id_attr self = None \<and> get_stable_id h self = Inr sid \<and> select_context_id st sid = None
        \<and> load_id_or_insert db h self st = (None, self', st')
        \<longrightarrow> self' = self\<lparr>id_attr := Some (new_key db st)\<rparr>
          \<and> context_table st' = context_table st
               @ [\<lparr>row_id = new_key db st, row_type = ''span'', row_stable_id = sid\<rparr>]
          \<and> span_table st' = span_table st
               @ [\<lparr>span_id = new_key db st, span_parent_id = id_col (h (parent self)),
                   span_char_start = char_start self, span_char_end = char_end self,
                   span_meta = meta self\<rparr>])
   \<and> (load_id_or_insert db h self st = (r, self', st') \<and> st' \<noteq> st
        \<longrightarrow> id_attr self = None
          \<and> (\<exists>sid. get_stable_id h self = Inr sid \<and> select_context_id st sid = None))
   \<and> (id_attr first = None \<and> id_attr second = None
        \<and> get_stable_id h first = Inr sid \<and> get_stable_id h second = Inr sid
        \<and> length (filter (\<lambda>r. row_stable_id r = sid) (context_table st)) \<le> 1
        \<and> load_id_or_insert db h first st = (None, first_done, st_mid)
        \<longrightarrow> load_id_or_insert db h second st_mid
              = (None, second\<lparr>id_attr := id_attr first_done\<rparr>, st_mid)
          \<and> id_attr first_done \<noteq> None
          \<and> length (filter (\<lambda>r. row_stable_id r = sid) (context_table st_mid)) = 1)"
proof (intro conjI impI)
  assume "id_attr self \<noteq> None"
  then show "load_id_or_insert db h self st = (None, self, st)"
    by (auto simp: load_id_or_insert_set)
next
  assume "id_attr self = None \<and> get_stable_id h self = Inr sid \<and> select_context_id st sid = Some i"
  then show "load_id_or_insert db h self st = (None, self\<lparr>id_attr := Some i\<rparr>, st)"
    by (simp add: load_id_or_insert_found)
next
  assume a: "id_attr self = None \<and> get_stable_id h self = Inr sid \<and> select_context_id st sid = None
        \<and> load_id_or_insert db h self st = (None, self', st')"
  then have *: "id_attr self = None" "get_stable_id h self = Inr sid" "select_context_id st sid = None"
    "load_id_or_insert db h self st = (None, self', st')" by simp_all
  from load_id_or_insert_inserted [OF *]
  show "self' = self\<lparr>id_attr := Some (new_key db st)\<rparr>"
    and "context_table st' = context_table st
               @ [\<lparr>row_id = new_key db st, row_type = ''span'', row_stable_id = sid\<rparr>]"
    and "span_table st' = span_table st
               @ [\<lparr>span_id = new_key db st, span_parent_id = id_col (h (parent self)),
                   span_char_start = char_start self, span_char_end = char_end self,
                   span_meta = meta self\<rparr>]"
    by simp_all
next
  assume a: "load_id_or_insert db h self st = (r, self', st') \<and> st' \<noteq> st"
  then have *: "load_id_or_insert db h self st = (r, self', st')" "st' \<noteq> st" by simp_all
  from load_id_or_insert_changes [OF *]
  show "id_attr self = None"
    and "\<exists>sid. get_stable_id h self = Inr sid \<and> select_context_id st sid = None"
    by simp_all
next
  assume a: "id_attr first = None \<and> id_attr second = None
        \<and> get_stable_id h first = Inr sid \<and> get_stable_id h second = Inr sid
        \<and> length (filter (\<lambda>r. row_stable_id r = sid) (context_table st)) \<le> 1
        \<and> load_id_or_insert db h first st = (None, first_done, st_mid)"
  then have *: "id_attr first = None" "get_stable_id h first = Inr sid"
    "length (filter (\<lambda>r. row_stable_id r = sid) (context_table st)) \<le> 1"
    "load_id_or_insert db h first st = (None, first_done, st_mid)"
    and second: "id_attr second = None" "get_stable_id h second = Inr sid" by simp_all
  from load_id_or_insert_one_row [OF *]
  obtain i where one: "length (filter (\<lambda>r. row_stable_id r = sid) (context_table st_mid)) = 1"
    and i: "id_attr first_done = Some i" "select_context_id st_mid sid = Some i" by blast
  from load_id_or_insert_found [OF second i(2), of db] i(1)
  show "load_id_or_insert db h second st_mid
      = (None, second\<lparr>id_attr := id_attr first_done\<rparr>, st_mid)"
    and "id_attr first_done \<noteq> None"
    and "length (filter (\<lambda>r. row_stable_id r = sid) (context_table st_mid)) = 1"
    using one by simp_all
qed

theorem load_id_or_insert_spec_witness:
  "load_id_or_insert counting_store two_parents (TemporarySpan_init 0 4 6 PNone)
       \<lparr>context_table = [], span_table = []\<rparr>
     = (None, TemporarySpan_init 0 4 6 PNone\<lparr>id_attr := Some 1\<rparr>,
            \<lparr>context_table = [\<lparr>row_id = 1, row_type = ''span'', row_stable_id = ''doc::span:14:16''\<rparr>],
             span_table = [\<lparr>span_id = 1, span_parent_id = Some 1, span_char_start = 4,
                            span_char_end = 6, span_meta = PNone\<rparr>]\<rparr>)
   \<and> load_id_or_insert counting_store two_parents (TemporarySpan_init 1 4 6 (PStr ''m''))
       \<lparr>context_table = [\<lparr>row_id = 1, row_type = ''span'', row_stable_id = ''doc::span:14:16''\<rparr>],
        span_table = [\<lparr>span_id = 1, span_parent_id = Some 1, span_char_start = 4,
                       span_char_end = 6, span_meta = PNone\<rparr>]\<rparr>
     = (None, TemporarySpan_init 1 4 6 (PStr ''m'')\<lparr>id_attr := Some 1\<rparr>,
            \<lparr>context_table = [\<lparr>row_id = 1, row_type = ''span'', row_stable_id = ''doc::span:14:16''\<rparr>],
             span_table = [\<lparr>span_id = 1, span_parent_id = Some 1, span_char_start = 4,
                            span_char_end = 6, span_meta = PNone\<rparr>]\<rparr>)
   \<and> load_id_or_insert counting_store two_parents
       (TemporarySpan_init 0 4 6 PNone\<lparr>id_attr := Some 1\<rparr>)
       \<lparr>context_table = [], span_table = []\<rparr>
     = (None, TemporarySpan_init 0 4 6 PNone\<lparr>id_attr := Some 1\<rparr>,
            \<lparr>context_table = [], span_table = []\<rparr>)"
proof -
  let ?c1 = "TemporarySpan_init 0 4 6 PNone" and ?c2 = "TemporarySpan_init 1 4 6 (PStr ''m'')"
  let ?st = "\<lparr>context_table = [], span_table = []\<rparr>"
  let ?st1 = "\<lparr>context_table = [\<lparr>row_id = 1, row_type = ''span'', row_stable_id = ''doc::span:14:16''\<rparr>],
             span_table = [\<lparr>span_id = 1, span_parent_id = Some 1, span_char_start = 4,
                            span_char_end = 6, span_meta = PNone\<rparr>]\<rparr>"
  have ids: "id_attr ?c1 = None" "id_attr ?c2 = None"
    by (simp_all add: TemporarySpan_init_def)
  have s1: "get_stable_id two_parents ?c1 = Inr ''doc::span:14:16''"
    by code_simp
  have s2: "get_stable_id two_parents ?c2 = Inr ''doc::span:14:16''"
    by code_simp
  have cnt: "length (filter (\<lambda>r. row_stable_id r = ''doc::span:14:16'') (context_table ?st)) \<le> 1"
    by simp
  have first: "load_id_or_insert counting_store two_parents ?c1 ?st
      = (None, ?c1\<lparr>id_attr := Some 1\<rparr>, ?st1)"
    by code_simp
  from load_id_or_insert_spec [where first = ?c1 and second = ?c2 and h = two_parents
      and db = counting_store and sid = "''doc::span:14:16''" and st = ?st
      and first_done = "?c1\<lparr>id_attr := Some 1\<rparr>" and st_mid = ?st1]
    ids s1 s2 cnt first
  have "load_id_or_insert counting_store two_parents ?c2 ?st1
      = (None, ?c2\<lparr>id_attr := id_attr (?c1\<lparr>id_attr := Some 1\<rparr>)\<rparr>, ?st1)"
    by blast
  moreover from load_id_or_insert_spec [where self = "?c1\<lparr>id_attr := Some 1\<rparr>"
      and h = two_parents and db = counting_store and st = ?st, THEN conjunct1]
  have "load_id_or_insert counting_store two_parents (?c1\<lparr>id_attr := Some 1\<rparr>) ?st
      = (None, ?c1\<lparr>id_attr := Some 1\<rparr>, ?st)"
    by simp
  ultimately show ?thesis using first by simp
qed

section \<open>Properties of the attribute span\<close>

lemma py_slice_inclusive:
  assumes "0 \<le> a" and "- 1 \<le> b"
  shows "py_slice xs a (b + 1) = take (nat (b + 1 - a)) (drop (nat a) xs)"
proof -
  let ?n = "int (length xs)"
  have lo: "slice_bound ?n a = min a ?n" and hi: "slice_bound ?n (b + 1) = min (b + 1) ?n"
    using assms by (simp_all add: slice_bound_def)
  show ?thesis
  proof (cases "min a ?n < min (b + 1) ?n")
    case True
    then have "a < ?n" "a < b + 1" by (simp_all add: min_def split: if_splits)
    then have "take (nat (min (b + 1) ?n - a)) (drop (nat a) xs)
        = take (nat (b + 1 - a)) (drop (nat a) xs)"
      using assms by (cases "b + 1 \<le> ?n") (simp_all add: min_def)
    with True \<open>a < ?n\<close> show ?thesis
      by (simp add: py_slice_def lo hi Let_def min_def)
  next
    case False
    then have "?n \<le> a \<or> b + 1 \<le> a" by (auto simp: min_def split: if_splits)
    then have "take (nat (b + 1 - a)) (drop (nat a) xs) = []"
      using assms by auto
    moreover from False have "py_slice xs a (b + 1) = []"
      by (simp only: py_slice_def lo hi Let_def if_False)
    ultimately show ?thesis by simp
  qed
qed

lemma as_strings_map: "as_strings (map PStr xs) = Some xs"
  by (induction xs) simp_all

lemma ctw_loop_lower:
  "ctw_loop t i n cos = Some r \<Longrightarrow> 0 \<le> n \<Longrightarrow> (\<forall>v. i = Some v \<longrightarrow> - 1 \<le> v) \<Longrightarrow> - 1 \<le> r"
proof (induction cos arbitrary: i n)
  case Nil
  then show ?case by simp
next
  case (Cons co rest)
  show ?case
  proof (cases "t = co \<or> t < co")
    case True
    with Cons.prems show ?thesis by (auto split: if_splits)
  next
    case False
    with Cons.prems have "ctw_loop t (Some n) (n + 1) rest = Some r" by simp
    from Cons.IH [OF this] Cons.prems(2) show ?thesis by simp
  qed
qed

lemma get_word_end_lower: "get_word_end h self = Some we \<Longrightarrow> - 1 \<le> we"
  unfolding get_word_end_def char_to_word_index_def
  by (rule ctw_loop_lower [where i = None and n = 0]) simp_all

text \<open>
  For the attribute \<open>words\<close> the result is the slice \<^verbatim>\<open>text[char_start:char_end + 1]\<close>
  of the parent's text, whatever the separator; for \<open>0 \<le> char_start\<close> and
  \<open>-1 \<le> char_end\<close> that is the run of characters at the positions \<open>char_start\<close> to
  \<open>char_end\<close>, both included.
\<close>

lemma get_attrib_span_words:
  "get_attrib_span h self ''words'' sep
     = Inr (py_slice (text_col (h (parent self))) (char_start self) (char_end self + 1))"
  by (simp add: get_attrib_span_def)

lemma get_attrib_span_words_inclusive:
  "0 \<le> char_start self \<Longrightarrow> - 1 \<le> char_end self \<Longrightarrow>
   get_attrib_span h self ''words'' sep
     = Inr (take (nat (char_end self + 1 - char_start self))
              (drop (nat (char_start self)) (text_col (h (parent self)))))"
  by (simp add: get_attrib_span_words py_slice_inclusive)

text \<open>
  A negative \<open>char_start\<close> counts from the end of the text, as in any Python slice: the
  span from -9 to 4 of the eleven characters \<^verbatim>\<open>the cat sat\<close> gives the characters 2 to 4.
\<close>

lemma get_attrib_span_negative_start:
  "get_attrib_span (\<lambda>_. the_cat_sat) (TemporarySpan_init 0 (- 9) 4 PNone) ''words'' '' ''
     = Inr ''e c''"
  by code_simp

text \<open>
  For another attribute whose value on the parent is a list of strings, when both word
  indices are found and \<open>word_start\<close> is not negative, the result is the tokens at the
  positions \<open>word_start\<close> to \<open>word_end\<close>, both included, joined by the separator.
\<close>

lemma get_attrib_span_strings:
  assumes "a \<noteq> ''words''" and "getattribute (h (parent self)) a = Inr (PList (map PStr toks))"
    and "get_word_start h self = Some ws" and "get_word_end h self = Some we" and "0 \<le> ws"
  shows "get_attrib_span h self a sep
           = Inr (str_join sep (take (nat (we + 1 - ws)) (drop (nat ws) toks)))"
proof -
  from assms(4) have we: "- 1 \<le> we" by (rule get_word_end_lower)
  with assms(5) have "py_slice (map PStr toks) ws (we + 1)
      = map PStr (take (nat (we + 1 - ws)) (drop (nat ws) toks))"
    by (simp add: py_slice_inclusive take_map drop_map)
  with assms show ?thesis
    by (simp add: get_attrib_span_def get_attrib_tokens_def py_getslice_def py_join_def
        as_strings_map)
qed

lemma get_attrib_span_lemmas_example:
  "get_attrib_span (\<lambda>_. the_cat_sat) (TemporarySpan_init 0 4 10 PNone) ''lemmas'' ''-''
     = Inr ''cat-sit''"
proof -
  let ?h = "\<lambda>_ :: ref. the_cat_sat" and ?t = "TemporarySpan_init 0 4 10 PNone"
  have attr: "getattribute (?h (parent ?t)) ''lemmas''
      = Inr (PList (map PStr [''the'', ''cat'', ''sit'']))"
    by (simp add: getattribute_def the_cat_sat_def opt_list_def)
  have ws: "get_word_start ?h ?t = Some 1" and we: "get_word_end ?h ?t = Some 2"
    by code_simp+
  from get_attrib_span_strings [OF _ attr ws we, of "''-''"] show ?thesis by simp
qed

text \<open>
  Claim C8. For an attribute other than \<open>words\<close> the method is to return the tokens of
  the attribute over the words \<open>word_start\<close> to \<open>word_end\<close>, joined by the separator. It
  does not for the per-token column \<open>dep_parents\<close>: in \<open>the_cat_sat\<close> the span of
  characters 0 to 6 covers the words 0 and 1, \<open>get_attrib_tokens\<close> returns the tokens 2
  and 3 of \<open>dep_parents\<close>, and \<open>get_attrib_span\<close> passes these integers to \<^verbatim>\<open>join\<close>, which
  raises \<^verbatim>\<open>TypeError\<close>.
\<close>

theorem get_attrib_span_dep_parents_raises:
  "getattribute ((\<lambda>_. the_cat_sat) (parent (TemporarySpan_init 0 0 6 PNone))) ''dep_parents''
     = Inr (PList [PInt 2, PInt 3, PInt 0])
   \<and> get_word_start (\<lambda>_. the_cat_sat) (TemporarySpan_init 0 0 6 PNone) = Some 0
   \<and> get_word_end (\<lambda>_. the_cat_sat) (TemporarySpan_init 0 0 6 PNone) = Some 1
   \<and> get_attrib_tokens (\<lambda>_. the_cat_sat) (TemporarySpan_init 0 0 6 PNone) ''dep_parents''
     = Inr (PList [PInt 2, PInt 3])
   \<and> get_attrib_span (\<lambda>_. the_cat_sat) (TemporarySpan_init 0 0 6 PNone) ''dep_parents'' '' ''
     = Inl (TypeError ''sequence item: expected string'')"
proof -
  let ?h = "\<lambda>_ :: ref. the_cat_sat" and ?s = "TemporarySpan_init 0 0 6 PNone"
  have attr: "getattribute (?h (parent ?s)) ''dep_parents'' = Inr (PList [PInt 2, PInt 3, PInt 0])"
    by (simp add: getattribute_def the_cat_sat_def opt_list_def)
  have ws: "get_word_start ?h ?s = Some 0" and we: "get_word_end ?h ?s = Some 1"
    by code_simp+
  have toks: "get_attrib_tokens ?h ?s ''dep_parents'' = Inr (PList [PInt 2, PInt 3])"
    by (simp add: get_attrib_tokens_def attr ws we py_getslice_def py_slice_def slice_bound_def)
  have "get_attrib_span ?h ?s ''dep_parents'' '' '' = Inl (TypeError ''sequence item: expected string'')"
    by (simp add: get_attrib_span_def toks py_join_def)
  with attr ws we toks show ?thesis by blast
qed

end
